theory Spec2Isabelle
  imports Main "HOL-Library.Multiset"
begin

section \<open>Outcomes of a call\<close>

text \<open>
  A member function of \<^verbatim>\<open>src/util/sync.hpp\<close> either returns, or it does not:
  \<^item> \<open>UndefinedBehaviour\<close>: the call breaks the precondition of a standard-library
    operation it makes unchecked (\<^verbatim>\<open>front()\<close>/\<^verbatim>\<open>pop()\<close> of an empty
    \<^verbatim>\<open>std::queue\<close>, \<^verbatim>\<open>unlock()\<close> of a \<^verbatim>\<open>std::mutex\<close> that is not held);
  \<^item> \<open>Blocked\<close>: the call waits for a \<^verbatim>\<open>std::mutex\<close> that nobody will release;
  \<^item> \<open>Abort\<close>: a deliberate, checked failure (an assertion, \<^verbatim>\<open>std::abort\<close>, a
    thrown exception). No function of the file has such a path; the constructor is
    there so that "fails loudly" can be said.
  A result is \<open>failure + 'a\<close>, with \<open>Inl\<close> the failure.
\<close>

datatype failure = UndefinedBehaviour | Blocked | Abort

section \<open>SmartMessageQueue\<close>

text \<open>
  \<^verbatim>\<open>std::queue<T> _iq\<close> is the list of pending messages, front first.
  \<^verbatim>\<open>std::condition_variable _cvar\<close> is represented by the number of
  \<^verbatim>\<open>notify_one()\<close> calls made on it so far. Every member function holds
  \<^verbatim>\<open>_mtx\<close> from its first statement to its return, so calls of different threads
  are serialised; a value of this record is the queue between two calls, \<^verbatim>\<open>_mtx\<close> free.
\<close>

record 'a SmartMessageQueue =
  iq :: "'a list"
  cvar_notified :: nat

definition SmartMessageQueue_new :: "'a SmartMessageQueue" where
  "SmartMessageQueue_new = \<lparr>iq = [], cvar_notified = 0\<rparr>"

definition notify_one :: "'a SmartMessageQueue \<Rightarrow> 'a SmartMessageQueue" where
  "notify_one q = q\<lparr>cvar_notified := Suc (cvar_notified q)\<rparr>"

definition empty_q :: "'a SmartMessageQueue \<Rightarrow> bool" where
  "empty_q q = (iq q = [])"


text \<open>
  \<^verbatim>\<open>T pop()\<close>: \<^verbatim>\<open>auto val = _iq.front(); _iq.pop(); return val;\<close> with no check
  that the queue holds anything. On an empty \<^verbatim>\<open>std::queue\<close> \<^verbatim>\<open>front()\<close> is
  undefined behaviour.
\<close>

definition pop :: "'a SmartMessageQueue \<Rightarrow> failure + ('a \<times> 'a SmartMessageQueue)" where
  "pop q = (case iq q of
              [] \<Rightarrow> Inl UndefinedBehaviour
            | val # rest \<Rightarrow> Inr (val, q\<lparr>iq := rest\<rparr>))"

text \<open>
  \<^verbatim>\<open>popAll()\<close>: \<^verbatim>\<open>while (!_iq.empty()) { out.push_back(_iq.front()); _iq.pop(); }\<close>.
  The loop state is the queue and the vector \<open>out\<close>; it returns both when the queue
  is empty.
\<close>

fun popAll_loop :: "'a list \<Rightarrow> 'a list \<Rightarrow> 'a list \<times> 'a list" where
  "popAll_loop [] out = ([], out)"
| "popAll_loop (front # rest) out = popAll_loop rest (out @ [front])"

definition popAll :: "'a SmartMessageQueue \<Rightarrow> 'a list \<times> 'a SmartMessageQueue" where
  "popAll q = (case popAll_loop (iq q) [] of (rest, out) \<Rightarrow> (out, q\<lparr>iq := rest\<rparr>))"

text \<open>\<^verbatim>\<open>push(T msg, bool notify = true)\<close>: \<^verbatim>\<open>_iq.push(msg); if (notify) _cvar.notify_one();\<close>\<close>

definition push :: "'a \<Rightarrow> bool \<Rightarrow> 'a SmartMessageQueue \<Rightarrow> 'a SmartMessageQueue" where
  "push msg notify q =
     (let q' = q\<lparr>iq := iq q @ [msg]\<rparr> in if notify then notify_one q' else q')"

text \<open>
  \<^verbatim>\<open>pushAll(const Iter& iterable, bool notify = true)\<close> has no definition here. Its
  body is
  \<^verbatim>\<open>std::copy(std::begin(iterable), std::end(iterable), std::back_inserter(_iq));\<close>
  and a back-insert iterator assigns through the container's \<^verbatim>\<open>push_back\<close>.
  \<^verbatim>\<open>_iq\<close> is a \<^verbatim>\<open>std::queue<T>\<close>, which has \<^verbatim>\<open>push\<close> (as \<^verbatim>\<open>push()\<close> above uses
  it) and no \<^verbatim>\<open>push_back\<close>: the member template is ill-formed for every
  instantiation, so there is no call of it whose result could be written down.
\<close>

text \<open>A producer's run of \<^verbatim>\<open>push\<close> calls, each with its own \<open>notify\<close> flag.\<close>

fun pushes :: "('a \<times> bool) list \<Rightarrow> 'a SmartMessageQueue \<Rightarrow> 'a SmartMessageQueue" where
  "pushes [] q = q"
| "pushes ((msg, notify) # ms) q = pushes ms (push msg notify q)"




text \<open>
  \<^verbatim>\<open>waitForMessages()\<close>:
  \<^verbatim>\<open>std::unique_lock lock(_mtx); if (!_iq.empty()) return;\<close>
  \<^verbatim>\<open>_cvar.wait(lock, [this](){ return !_iq.empty(); });\<close>
  The standard defines \<^verbatim>\<open>wait(lock, pred)\<close> as \<^verbatim>\<open>while (!pred()) wait(lock);\<close>. Each
  \<^verbatim>\<open>wait(lock)\<close> releases \<^verbatim>\<open>_mtx\<close>, blocks until a notification or a spurious
  wake-up, and takes \<^verbatim>\<open>_mtx\<close> again before it returns; while the thread is blocked
  the other threads may call any member function. The other threads are the list
  \<open>wakeups\<close>: its n-th element is the queue as the waiting thread finds it, holding
  \<^verbatim>\<open>_mtx\<close>, after its n-th wake-up (notified or spurious). The result is the queue at
  return and the wake-ups not consumed; \<open>None\<close> is a thread that is still blocked when
  no wake-up is left.
\<close>

fun cvar_wait ::
  "'a SmartMessageQueue \<Rightarrow> 'a SmartMessageQueue list
     \<Rightarrow> ('a SmartMessageQueue \<times> 'a SmartMessageQueue list) option" where
  "cvar_wait q [] = (if \<not> empty_q q then Some (q, []) else None)"
| "cvar_wait q (woken # wakeups) =
     (if \<not> empty_q q then Some (q, woken # wakeups) else cvar_wait woken wakeups)"

definition waitForMessages ::
  "'a SmartMessageQueue \<Rightarrow> 'a SmartMessageQueue list
     \<Rightarrow> ('a SmartMessageQueue \<times> 'a SmartMessageQueue list) option" where
  "waitForMessages q wakeups =
     (if \<not> empty_q q then Some (q, wakeups) else cvar_wait q wakeups)"

text \<open>
  \<^verbatim>\<open>bool waitForMessages(duration timeout)\<close>:
  \<^verbatim>\<open>std::unique_lock lock(_mtx); if (!_iq.empty()) return true;\<close>
  \<^verbatim>\<open>return _cvar.wait_for(lock, timeout, [this](){ return !_iq.empty(); });\<close>
  The standard defines \<^verbatim>\<open>wait_for(lock, rel_time, pred)\<close> through \<^verbatim>\<open>wait_until\<close> as
  \<^verbatim>\<open>while (!pred()) if (wait_until(lock, abs_time) == cv_status::timeout) return pred();\<close>
  \<^verbatim>\<open>return true;\<close>
  A wake-up now carries the status \<^verbatim>\<open>wait_until\<close> returns: \<open>timeout\<close> when the
  deadline has passed, \<open>no_timeout\<close> otherwise.
\<close>

datatype cv_status = no_timeout | timeout

fun cvar_wait_for ::
  "'a SmartMessageQueue \<Rightarrow> (cv_status \<times> 'a SmartMessageQueue) list
     \<Rightarrow> (bool \<times> 'a SmartMessageQueue \<times> (cv_status \<times> 'a SmartMessageQueue) list) option" where
  "cvar_wait_for q [] = (if \<not> empty_q q then Some (True, q, []) else None)"
| "cvar_wait_for q ((status, woken) # wakeups) =
     (if \<not> empty_q q then Some (True, q, (status, woken) # wakeups)
      else if status = timeout then Some (\<not> empty_q woken, woken, wakeups)
      else cvar_wait_for woken wakeups)"

definition waitForMessages_timeout ::
  "'a SmartMessageQueue \<Rightarrow> (cv_status \<times> 'a SmartMessageQueue) list
     \<Rightarrow> (bool \<times> 'a SmartMessageQueue \<times> (cv_status \<times> 'a SmartMessageQueue) list) option" where
  "waitForMessages_timeout q wakeups =
     (if \<not> empty_q q then Some (True, q, wakeups) else cvar_wait_for q wakeups)"

section \<open>WrappingMutex and its Guard\<close>

text \<open>
  \<^verbatim>\<open>std::mutex\<close>: whether it is held, and how many \<^verbatim>\<open>unlock()\<close> calls have released
  it. \<^verbatim>\<open>lock()\<close> of a held mutex does not return; \<^verbatim>\<open>unlock()\<close> of a mutex that is
  not held is undefined behaviour.
\<close>

record mutex =
  locked :: bool
  released :: nat

definition mutex_new :: mutex where
  "mutex_new = \<lparr>locked = False, released = 0\<rparr>"

definition mutex_lock :: "mutex \<Rightarrow> failure + mutex" where
  "mutex_lock m = (if locked m then Inl Blocked else Inr (m\<lparr>locked := True\<rparr>))"

definition mutex_unlock :: "mutex \<Rightarrow> failure + mutex" where
  "mutex_unlock m =
     (if locked m then Inr (m\<lparr>locked := False, released := Suc (released m)\<rparr>)
      else Inl UndefinedBehaviour)"

text \<open>
  \<^verbatim>\<open>WrappingMutex<T>\<close> has \<^verbatim>\<open>std::shared_ptr<T> data_\<close> and \<^verbatim>\<open>std::mutex mutex_\<close>;
  the fields \<open>m_data\<close> (the object the pointer owns) and \<open>m_mutex\<close> stand for them.
  \<^verbatim>\<open>WrappingMutex(): data_(std::make_shared<T>()), mutex_() {}\<close> takes the
  value-initialised \<^verbatim>\<open>T()\<close> as the parameter \<open>T_default\<close>.
  \<^verbatim>\<open>WrappingMutex(T obj) : data_(std::make_shared(obj)), mutex_() {}\<close> has no
  definition here: \<^verbatim>\<open>std::make_shared\<close> is called without its template argument,
  which no function argument lets the compiler deduce, so the constructor is
  ill-formed whenever it is instantiated and builds no object.
\<close>

record 'a WrappingMutex =
  m_data :: 'a
  m_mutex :: mutex

definition WrappingMutex_default :: "'a \<Rightarrow> 'a WrappingMutex" where
  "WrappingMutex_default T_default = \<lparr>m_data = T_default, m_mutex = mutex_new\<rparr>"

text \<open>
  A \<^verbatim>\<open>Guard\<close> has a copy of the owner's \<^verbatim>\<open>shared_ptr\<close>, a reference to the owner's
  mutex and the flag \<^verbatim>\<open>alreadyUnlocked\<close> (initially false). Its first two members
  alias the \<^verbatim>\<open>WrappingMutex\<close> it came from, so the member functions of a guard take
  the guard's flag together with that \<^verbatim>\<open>WrappingMutex\<close> and return them updated.
\<close>

record Guard =
  alreadyUnlocked :: bool

type_synonym 'a guarded = "Guard \<times> 'a WrappingMutex"

text \<open>\<^verbatim>\<open>Guard(std::shared_ptr<T> data, std::mutex& mutex)\<close>: \<^verbatim>\<open>mutex_.lock();\<close>\<close>

definition Guard_ctor :: "'a WrappingMutex \<Rightarrow> failure + 'a guarded" where
  "Guard_ctor w =
     (case mutex_lock (m_mutex w) of
        Inl e \<Rightarrow> Inl e
      | Inr m \<Rightarrow> Inr (\<lparr>alreadyUnlocked = False\<rparr>, w\<lparr>m_mutex := m\<rparr>))"

text \<open>\<^verbatim>\<open>Guard lock() { return Guard(data_, mutex_); }\<close>\<close>

definition lock :: "'a WrappingMutex \<Rightarrow> failure + 'a guarded" where
  "lock w = Guard_ctor w"

text \<open>\<^verbatim>\<open>~Guard() { if (!alreadyUnlocked) mutex_.unlock(); }\<close>; the guard is gone afterwards.\<close>

definition Guard_dtor :: "'a guarded \<Rightarrow> failure + 'a WrappingMutex" where
  "Guard_dtor s =
     (case s of (g, w) \<Rightarrow>
        if \<not> alreadyUnlocked g then
          (case mutex_unlock (m_mutex w) of
             Inl e \<Rightarrow> Inl e
           | Inr m \<Rightarrow> Inr (w\<lparr>m_mutex := m\<rparr>))
        else Inr w)"

text \<open>\<^verbatim>\<open>T& operator* () { return *data_; }\<close> and \<^verbatim>\<open>Guard& operator=(const T& rhs)\<close>.\<close>

definition Guard_deref :: "'a guarded \<Rightarrow> 'a" where
  "Guard_deref s = m_data (snd s)"

definition Guard_assign :: "'a \<Rightarrow> 'a guarded \<Rightarrow> 'a guarded" where
  "Guard_assign rhs s = (case s of (g, w) \<Rightarrow> (g, w\<lparr>m_data := rhs\<rparr>))"

text \<open>
  \<^verbatim>\<open>void unlock() { if (!alreadyUnlocked) { mutex_.unlock(); alreadyUnlocked = true; } }\<close>
\<close>

definition unlock :: "'a guarded \<Rightarrow> failure + 'a guarded" where
  "unlock s =
     (case s of (g, w) \<Rightarrow>
        if \<not> alreadyUnlocked g then
          (case mutex_unlock (m_mutex w) of
             Inl e \<Rightarrow> Inl e
           | Inr m \<Rightarrow> Inr (g\<lparr>alreadyUnlocked := True\<rparr>, w\<lparr>m_mutex := m\<rparr>))
        else Inr (g, w))"

text \<open>
  The life of one guard: \<^verbatim>\<open>lock()\<close>, then \<open>n\<close> explicit \<^verbatim>\<open>unlock()\<close> calls, then
  the destructor at the end of the scope.
\<close>

fun unlock_times :: "nat \<Rightarrow> 'a guarded \<Rightarrow> failure + 'a guarded" where
  "unlock_times 0 s = Inr s"
| "unlock_times (Suc n) s =
     (case unlock s of Inl e \<Rightarrow> Inl e | Inr s' \<Rightarrow> unlock_times n s')"

definition Guard_lifetime :: "nat \<Rightarrow> 'a WrappingMutex \<Rightarrow> failure + 'a WrappingMutex" where
  "Guard_lifetime n w =
     (case lock w of
        Inl e \<Rightarrow> Inl e
      | Inr s \<Rightarrow> (case unlock_times n s of Inl e \<Rightarrow> Inl e | Inr s' \<Rightarrow> Guard_dtor s'))"

section \<open>RelaxedAtomic\<close>

text \<open>
  \<^verbatim>\<open>std::atomic<T> value\<close> is the field \<open>atomic_value\<close>. The memory order of a load
  or a store constrains how accesses to other objects are ordered around it, not
  the value read or written.
\<close>

datatype memory_order = relaxed | consume | acquire | release | acq_rel | seq_cst

record 'a RelaxedAtomic =
  atomic_value :: 'a

definition RelaxedAtomic_initial :: "'a \<Rightarrow> 'a RelaxedAtomic" where
  "RelaxedAtomic_initial initial = \<lparr>atomic_value = initial\<rparr>"

definition load :: "'a RelaxedAtomic \<Rightarrow> memory_order \<Rightarrow> 'a" where
  "load a order = atomic_value a"

definition store :: "'a \<Rightarrow> memory_order \<Rightarrow> 'a RelaxedAtomic \<Rightarrow> 'a RelaxedAtomic" where
  "store val order a = a\<lparr>atomic_value := val\<rparr>"

text \<open>
  \<^verbatim>\<open>RelaxedAtomic(RelaxedAtomic<T>& other) { this->store(other.load()); }\<close>
  \<open>self\<close> is the new object as it is before the body runs, its member
  default-initialised. The body is two atomic operations, a load of \<open>other\<close> and a
  store into \<open>self\<close>; \<open>RelaxedAtomic_copy_with\<close> lets another thread act on \<open>other\<close>
  between them and returns the new object and the source as they are afterwards.
\<close>

definition RelaxedAtomic_copy :: "'a RelaxedAtomic \<Rightarrow> 'a RelaxedAtomic \<Rightarrow> 'a RelaxedAtomic" where
  "RelaxedAtomic_copy self other = store (load other relaxed) relaxed self"

definition RelaxedAtomic_copy_with ::
  "('a RelaxedAtomic \<Rightarrow> 'a RelaxedAtomic) \<Rightarrow> 'a RelaxedAtomic \<Rightarrow> 'a RelaxedAtomic
     \<Rightarrow> 'a RelaxedAtomic \<times> 'a RelaxedAtomic" where
  "RelaxedAtomic_copy_with writer self other =
     (let loaded = load other relaxed;
          other' = writer other;
          self' = store loaded relaxed self
      in (self', other'))"

section \<open>Properties of SmartMessageQueue\<close>

lemma popAll_loop_eq: "popAll_loop xs out = ([], out @ xs)"
  by (induction xs arbitrary: out) simp_all

lemma popAll_eq: "popAll q = (iq q, q\<lparr>iq := []\<rparr>)"
  by (simp add: popAll_def popAll_loop_eq)

lemma iq_push: "iq (push msg notify q) = iq q @ [msg]"
  by (simp add: push_def notify_one_def Let_def)

lemma iq_pushes: "iq (pushes ms q) = iq q @ map fst ms"
  by (induction ms q rule: pushes.induct) (simp_all add: iq_push)

text \<open>
  C1. \<^verbatim>\<open>popAll()\<close> removes every pending element, returns them front first and leaves
  the queue empty; after pushes \<open>m1, ..., mn\<close> (onto a queue holding \<open>iq q\<close>) it returns
  what was pending followed by \<open>m1, ..., mn\<close> in push order, so on a new queue exactly
  \<open>m1, ..., mn\<close>.
\<close>

theorem popAll_fifo:
  "fst (popAll q) = iq q
   \<and> iq (snd (popAll q)) = []
   \<and> snd (popAll q) = q\<lparr>iq := []\<rparr>
   \<and> fst (popAll (pushes ms q)) = iq q @ map fst ms
   \<and> fst (popAll (pushes ms SmartMessageQueue_new)) = map fst ms"
  by (simp add: popAll_eq iq_pushes SmartMessageQueue_new_def)

theorem popAll_fifo_witness:
  "fst (popAll (pushes [(1::nat, True), (2, False), (3, True)] SmartMessageQueue_new)) = [1, 2, 3]
   \<and> snd (popAll \<lparr>iq = [4::nat, 5], cvar_notified = 2\<rparr>) = \<lparr>iq = [], cvar_notified = 2\<rparr>"
  using popAll_fifo [of SmartMessageQueue_new "[(1::nat, True), (2, False), (3, True)]"]
        popAll_fifo [of "\<lparr>iq = [4::nat, 5], cvar_notified = 2\<rparr>" "[]"]
  by simp

text \<open>
  C9. \<^verbatim>\<open>popAll()\<close> needs no non-empty queue: on an empty queue the loop body never
  runs, the call returns the empty vector and the queue is as it was (empty, the
  notification count untouched), where \<^verbatim>\<open>pop()\<close> on the same queue is undefined.
\<close>

theorem popAll_empty_safe:
  "empty_q q \<Longrightarrow>
     popAll q = ([], q) \<and> empty_q (snd (popAll q)) \<and> pop q = Inl UndefinedBehaviour"
  by (simp add: empty_q_def popAll_def pop_def)

theorem popAll_empty_safe_witness:
  "empty_q \<lparr>iq = ([] :: nat list), cvar_notified = 3\<rparr>
   \<and> popAll \<lparr>iq = ([] :: nat list), cvar_notified = 3\<rparr>
       = ([], \<lparr>iq = [], cvar_notified = 3\<rparr>)"
  using popAll_empty_safe [of "\<lparr>iq = ([] :: nat list), cvar_notified = 3\<rparr>"]
  by (simp add: empty_q_def)





lemma cvar_wait_nonempty: "cvar_wait q ws = Some (q', ws') \<Longrightarrow> \<not> empty_q q'"
  by (induction ws arbitrary: q) (auto split: if_splits)

lemma cvar_wait_now: "\<not> empty_q q \<Longrightarrow> cvar_wait q ws = Some (q, ws)"
  by (cases ws) simp_all

lemma cvar_wait_returns: "\<exists>w\<in>set ws. \<not> empty_q w \<Longrightarrow> cvar_wait q ws \<noteq> None"
proof (induction ws arbitrary: q)
  case Nil
  then show ?case by simp
next
  case (Cons woken ws)
  show ?case
  proof (cases "empty_q woken")
    case True
    with Cons.prems have "\<exists>w\<in>set ws. \<not> empty_q w" by auto
    from Cons.IH [OF this] show ?thesis by simp
  next
    case False
    then show ?thesis by (simp add: cvar_wait_now)
  qed
qed

lemma cvar_wait_for_now: "\<not> empty_q q \<Longrightarrow> cvar_wait_for q ws = Some (True, q, ws)"
  by (cases ws) auto

lemma cvar_wait_for_result: "cvar_wait_for q ws = Some (b, q', ws') \<Longrightarrow> b = (\<not> empty_q q')"
  by (induction q ws rule: cvar_wait_for.induct) (auto split: if_splits)

lemma cvar_wait_for_false:
  "cvar_wait_for q ws = Some (False, q', ws') \<Longrightarrow> (timeout, q') \<in> set ws"
  by (induction q ws rule: cvar_wait_for.induct) (auto split: if_splits)

lemma cvar_wait_for_returns: "\<exists>e\<in>set ws. fst e = timeout \<Longrightarrow> cvar_wait_for q ws \<noteq> None"
  by (induction q ws rule: cvar_wait_for.induct) (auto simp: cvar_wait_for_now)

lemma cvar_wait_for_item: "\<exists>e\<in>set ws. \<not> empty_q (snd e) \<Longrightarrow> cvar_wait_for q ws \<noteq> None"
  by (induction q ws rule: cvar_wait_for.induct) (auto simp: cvar_wait_for_now)

lemma cvar_wait_for_blocked:
  "empty_q q \<Longrightarrow> \<forall>e\<in>set ws. fst e = no_timeout \<and> empty_q (snd e) \<Longrightarrow>
     cvar_wait_for q ws = None"
  by (induction q ws rule: cvar_wait_for.induct) auto

lemma cvar_wait_blocked: "empty_q q \<Longrightarrow> \<forall>w\<in>set ws. empty_q w \<Longrightarrow> cvar_wait q ws = None"
  by (induction ws arbitrary: q) simp_all

text \<open>
  C4. In terms of the wake-ups the waiting thread is given:
  \<^item> \<^verbatim>\<open>waitForMessages()\<close> on a non-empty queue returns at once and consumes no
    wake-up; on an empty queue a wake-up that finds the queue empty (a spurious one)
    leaves it waiting, the first wake-up that finds an item makes it return, and it
    returns only with a non-empty queue: it does return when some wake-up finds an
    item, and stays blocked while none does.
  \<^item> \<^verbatim>\<open>waitForMessages(timeout)\<close> on a non-empty queue returns \<open>True\<close> at once; its
    result is \<open>True\<close> exactly when the queue is non-empty at return; \<open>False\<close> is
    returned only at a wake-up whose status is \<open>timeout\<close>; a timed-out wake-up ends
    the wait with the predicate's value (\<open>False\<close> when no item is there); an early
    wake-up that finds the queue empty leaves it waiting; it returns whenever a
    timed-out wake-up comes; a wake-up that finds an item, notified before the
    deadline or timed out, ends the wait with \<open>True\<close> and that queue, so it returns
    as soon as some wake-up finds an item; and it stays blocked while every wake-up
    is early and finds the queue empty.
  \<^item> With no wake-up at all both calls stay blocked on an empty queue. Together with
    the one-step cases above this fixes the result of both calls on every queue and
    every list of wake-ups.
\<close>

theorem waitForMessages_blocks_until_available:
  "(\<not> empty_q q \<longrightarrow> waitForMessages q wakeups = Some (q, wakeups))
   \<and> (waitForMessages q wakeups = Some (q', rest) \<longrightarrow> \<not> empty_q q')
   \<and> (empty_q q \<and> empty_q woken \<longrightarrow>
        waitForMessages q (woken # wakeups) = waitForMessages woken wakeups)
   \<and> (empty_q q \<and> \<not> empty_q woken \<longrightarrow>
        waitForMessages q (woken # wakeups) = Some (woken, wakeups))
   \<and> ((\<exists>w\<in>set wakeups. \<not> empty_q w) \<longrightarrow> waitForMessages q wakeups \<noteq> None)
   \<and> (empty_q q \<and> (\<forall>w\<in>set wakeups. empty_q w) \<longrightarrow> waitForMessages q wakeups = None)
   \<and> (\<not> empty_q q \<longrightarrow> waitForMessages_timeout q twakeups = Some (True, q, twakeups))
   \<and> (waitForMessages_timeout q twakeups = Some (b, q'', trest) \<longrightarrow> b = (\<not> empty_q q''))
   \<and> (waitForMessages_timeout q twakeups = Some (False, q'', trest) \<longrightarrow>
        (timeout, q'') \<in> set twakeups)
   \<and> (empty_q q \<longrightarrow>
        waitForMessages_timeout q ((timeout, woken) # twakeups)
          = Some (\<not> empty_q woken, woken, twakeups))
   \<and> (empty_q q \<and> empty_q woken \<longrightarrow>
        waitForMessages_timeout q ((no_timeout, woken) # twakeups)
          = waitForMessages_timeout woken twakeups)
   \<and> ((\<exists>e\<in>set twakeups. fst e = timeout) \<longrightarrow> waitForMessages_timeout q twakeups \<noteq> None)
   \<and> (empty_q q \<and> \<not> empty_q woken \<longrightarrow>
        waitForMessages_timeout q ((no_timeout, woken) # twakeups) = Some (True, woken, twakeups))
   \<and> (empty_q q \<and> \<not> empty_q woken \<longrightarrow>
        waitForMessages_timeout q ((status, woken) # twakeups) = Some (True, woken, twakeups))
   \<and> ((\<exists>e\<in>set twakeups. \<not> empty_q (snd e)) \<longrightarrow>
        waitForMessages_timeout q twakeups \<noteq> None)
   \<and> (empty_q q \<and> (\<forall>e\<in>set twakeups. fst e = no_timeout \<and> empty_q (snd e)) \<longrightarrow>
        waitForMessages_timeout q twakeups = None)
   \<and> (empty_q q \<longrightarrow> waitForMessages q [] = None \<and> waitForMessages_timeout q [] = None)"
proof -
  have 1: "\<not> empty_q q \<longrightarrow> waitForMessages q wakeups = Some (q, wakeups)"
    by (simp add: waitForMessages_def)
  have 2: "waitForMessages q wakeups = Some (q', rest) \<longrightarrow> \<not> empty_q q'"
    by (auto simp: waitForMessages_def dest: cvar_wait_nonempty split: if_splits)
  have 3: "empty_q q \<and> empty_q woken \<longrightarrow>
        waitForMessages q (woken # wakeups) = waitForMessages woken wakeups"
    by (simp add: waitForMessages_def)
  have 4: "empty_q q \<and> \<not> empty_q woken \<longrightarrow>
        waitForMessages q (woken # wakeups) = Some (woken, wakeups)"
    by (simp add: waitForMessages_def cvar_wait_now)
  have 5: "(\<exists>w\<in>set wakeups. \<not> empty_q w) \<longrightarrow> waitForMessages q wakeups \<noteq> None"
    using cvar_wait_returns [of wakeups q] by (auto simp: waitForMessages_def)
  have 12: "empty_q q \<and> (\<forall>w\<in>set wakeups. empty_q w) \<longrightarrow> waitForMessages q wakeups = None"
    using cvar_wait_blocked [of q wakeups] by (simp add: waitForMessages_def)
  have 6: "\<not> empty_q q \<longrightarrow> waitForMessages_timeout q twakeups = Some (True, q, twakeups)"
    by (simp add: waitForMessages_timeout_def)
  have 7: "waitForMessages_timeout q twakeups = Some (b, q'', trest) \<longrightarrow> b = (\<not> empty_q q'')"
    by (auto simp: waitForMessages_timeout_def dest: cvar_wait_for_result split: if_splits)
  have 8: "waitForMessages_timeout q twakeups = Some (False, q'', trest) \<longrightarrow>
        (timeout, q'') \<in> set twakeups"
    by (auto simp: waitForMessages_timeout_def dest: cvar_wait_for_false split: if_splits)
  have 9: "empty_q q \<longrightarrow>
        waitForMessages_timeout q ((timeout, woken) # twakeups)
          = Some (\<not> empty_q woken, woken, twakeups)"
    by (simp add: waitForMessages_timeout_def)
  have 10: "empty_q q \<and> empty_q woken \<longrightarrow>
        waitForMessages_timeout q ((no_timeout, woken) # twakeups)
          = waitForMessages_timeout woken twakeups"
    by (simp add: waitForMessages_timeout_def)
  have 11: "(\<exists>e\<in>set twakeups. fst e = timeout) \<longrightarrow> waitForMessages_timeout q twakeups \<noteq> None"
    using cvar_wait_for_returns [of twakeups q] by (auto simp: waitForMessages_timeout_def)
  have 13: "empty_q q \<and> \<not> empty_q woken \<longrightarrow>
        waitForMessages_timeout q ((no_timeout, woken) # twakeups) = Some (True, woken, twakeups)"
    by (simp add: waitForMessages_timeout_def cvar_wait_for_now)
  have 14: "empty_q q \<and> \<not> empty_q woken \<longrightarrow>
        waitForMessages_timeout q ((status, woken) # twakeups) = Some (True, woken, twakeups)"
    by (cases status) (simp_all add: waitForMessages_timeout_def cvar_wait_for_now)
  have 15: "(\<exists>e\<in>set twakeups. \<not> empty_q (snd e)) \<longrightarrow>
        waitForMessages_timeout q twakeups \<noteq> None"
    using cvar_wait_for_item [of twakeups q] by (auto simp: waitForMessages_timeout_def)
  have 16: "empty_q q \<and> (\<forall>e\<in>set twakeups. fst e = no_timeout \<and> empty_q (snd e)) \<longrightarrow>
        waitForMessages_timeout q twakeups = None"
    using cvar_wait_for_blocked [of q twakeups] by (simp add: waitForMessages_timeout_def)
  have 17: "empty_q q \<longrightarrow> waitForMessages q [] = None \<and> waitForMessages_timeout q [] = None"
    by (simp add: waitForMessages_def waitForMessages_timeout_def)
  show ?thesis
    by (intro conjI 1 2 3 4 5 12 6 7 8 9 10 11 13 14 15 16 17)
qed

theorem waitForMessages_blocks_until_available_witness:
  "waitForMessages \<lparr>iq = [], cvar_notified = 0\<rparr>
     (\<lparr>iq = [], cvar_notified = 0\<rparr> # [\<lparr>iq = [7::nat], cvar_notified = 1\<rparr>])
     = Some (\<lparr>iq = [7], cvar_notified = 1\<rparr>, [])
   \<and> waitForMessages_timeout \<lparr>iq = [], cvar_notified = 0\<rparr>
       ((no_timeout, \<lparr>iq = [], cvar_notified = 0\<rparr>)
        # [(timeout, \<lparr>iq = ([] :: nat list), cvar_notified = 0\<rparr>)])
     = Some (False, \<lparr>iq = [], cvar_notified = 0\<rparr>, [])
   \<and> waitForMessages_timeout \<lparr>iq = [], cvar_notified = 0\<rparr>
       ((no_timeout, \<lparr>iq = [], cvar_notified = 0\<rparr>)
        # (no_timeout, \<lparr>iq = [7::nat], cvar_notified = 1\<rparr>)
        # [(timeout, \<lparr>iq = [], cvar_notified = 0\<rparr>)])
     = Some (True, \<lparr>iq = [7], cvar_notified = 1\<rparr>,
             [(timeout, \<lparr>iq = [], cvar_notified = 0\<rparr>)])
   \<and> waitForMessages_timeout \<lparr>iq = [], cvar_notified = 0\<rparr>
       [(timeout, \<lparr>iq = [7::nat], cvar_notified = 1\<rparr>)]
     = Some (True, \<lparr>iq = [7], cvar_notified = 1\<rparr>, [])"
proof -
  let ?e = "\<lparr>iq = ([] :: nat list), cvar_notified = 0\<rparr>"
  let ?f = "\<lparr>iq = [7::nat], cvar_notified = 1\<rparr>"
  have e: "empty_q ?e" and f: "\<not> empty_q ?f" by (simp_all add: empty_q_def)
  note t1 = waitForMessages_blocks_until_available
              [where q = ?e and wakeups = "[?f]" and woken = ?e and twakeups = "[(timeout, ?e)]"
                 and status = no_timeout]
  note t2 = waitForMessages_blocks_until_available
              [where q = ?e and wakeups = "[]" and woken = ?f and twakeups = "[]"
                 and status = timeout]
  note t3 = waitForMessages_blocks_until_available
              [where q = ?e and wakeups = "[]" and woken = ?e and twakeups = "[]"
                 and status = no_timeout]
  note t4 = waitForMessages_blocks_until_available
              [where q = ?e and wakeups = "[]" and woken = ?e
                 and twakeups = "[(no_timeout, ?f), (timeout, ?e)]" and status = no_timeout]
  note t5 = waitForMessages_blocks_until_available
              [where q = ?e and wakeups = "[]" and woken = ?f
                 and twakeups = "[(timeout, ?e)]" and status = no_timeout]
  from t1 e have a: "waitForMessages ?e (?e # [?f]) = waitForMessages ?e [?f]" by blast
  from t2 e f have b: "waitForMessages ?e (?f # []) = Some (?f, [])" by blast
  from t1 e have c: "waitForMessages_timeout ?e ((no_timeout, ?e) # [(timeout, ?e)])
                     = waitForMessages_timeout ?e [(timeout, ?e)]" by blast
  from t3 e have d: "waitForMessages_timeout ?e ((timeout, ?e) # [])
                     = Some (\<not> empty_q ?e, ?e, [])" by blast
  from t4 e have g: "waitForMessages_timeout ?e ((no_timeout, ?e) # [(no_timeout, ?f), (timeout, ?e)])
                     = waitForMessages_timeout ?e [(no_timeout, ?f), (timeout, ?e)]" by blast
  from t5 e f have h: "waitForMessages_timeout ?e ((no_timeout, ?f) # [(timeout, ?e)])
                     = Some (True, ?f, [(timeout, ?e)])" by blast
  from t2 e f have k: "waitForMessages_timeout ?e ((timeout, ?f) # [])
                     = Some (True, ?f, [])" by blast
  from a b c d g h k e show ?thesis by simp
qed

section \<open>Properties of WrappingMutex and Guard\<close>

lemma unlock_again: "unlock s = Inr s' \<Longrightarrow> unlock s' = Inr s'"
  by (cases s) (auto simp: unlock_def split: if_splits sum.splits)

lemma dtor_after_unlock: "unlock s = Inr s' \<Longrightarrow> Guard_dtor s' = Inr (snd s')"
  by (cases s) (auto simp: unlock_def Guard_dtor_def split: if_splits sum.splits)

lemma unlock_times_unlocked: "alreadyUnlocked (fst s) \<Longrightarrow> unlock_times n s = Inr s"
  by (induction n) (auto simp: unlock_def split: prod.splits)

lemma unlock_times_locked:
  "\<not> alreadyUnlocked g \<Longrightarrow> locked (m_mutex w) \<Longrightarrow>
     unlock_times (Suc n) (g, w) =
       Inr (g\<lparr>alreadyUnlocked := True\<rparr>,
            w\<lparr>m_mutex := (m_mutex w)\<lparr>locked := False, released := Suc (released (m_mutex w))\<rparr>\<rparr>)"
proof -
  assume a: "\<not> alreadyUnlocked g" "locked (m_mutex w)"
  have "unlock (g, w) =
       Inr (g\<lparr>alreadyUnlocked := True\<rparr>,
            w\<lparr>m_mutex := (m_mutex w)\<lparr>locked := False, released := Suc (released (m_mutex w))\<rparr>\<rparr>)"
    using a by (simp add: unlock_def mutex_unlock_def)
  then show ?thesis
    by (simp add: unlock_times_unlocked)
qed

lemma Guard_lifetime_eq:
  "\<not> locked (m_mutex w) \<Longrightarrow>
     Guard_lifetime n w =
       Inr (w\<lparr>m_mutex := \<lparr>locked = False, released = Suc (released (m_mutex w))\<rparr>\<rparr>)"
proof -
  assume free: "\<not> locked (m_mutex w)"
  let ?g = "\<lparr>alreadyUnlocked = False\<rparr>"
  let ?w = "w\<lparr>m_mutex := (m_mutex w)\<lparr>locked := True\<rparr>\<rparr>"
  have l: "lock w = Inr (?g, ?w)"
    using free by (simp add: lock_def Guard_ctor_def mutex_lock_def)
  show ?thesis
  proof (cases n)
    case 0
    with l show ?thesis
      by (simp add: Guard_lifetime_def Guard_dtor_def mutex_unlock_def)
  next
    case (Suc k)
    have "unlock_times (Suc k) (?g, ?w) =
            Inr (?g\<lparr>alreadyUnlocked := True\<rparr>,
                 ?w\<lparr>m_mutex := (m_mutex ?w)\<lparr>locked := False, released := Suc (released (m_mutex ?w))\<rparr>\<rparr>)"
      by (rule unlock_times_locked) simp_all
    with l Suc show ?thesis
      by (simp add: Guard_lifetime_def Guard_dtor_def)
  qed
qed

lemma unlock_sets_flag: "unlock s = Inr s' \<Longrightarrow> alreadyUnlocked (fst s')"
  by (cases s) (auto simp: unlock_def split: if_splits sum.splits)

lemma unlock_twice: "(case unlock s of Inl e \<Rightarrow> Inl e | Inr s' \<Rightarrow> unlock s') = unlock s"
  by (auto simp: unlock_again split: sum.splits)

text \<open>
  C6. An explicit \<^verbatim>\<open>unlock()\<close> that returns leaves \<^verbatim>\<open>alreadyUnlocked\<close> set; from
  then on a further \<^verbatim>\<open>unlock()\<close> and the destructor return without touching the
  mutex, whatever the other threads have done to it meanwhile, so two \<^verbatim>\<open>unlock()\<close>
  calls in a row are one. Over the life of a guard taken on a free mutex, with any
  number \<open>n\<close> of explicit \<^verbatim>\<open>unlock()\<close> calls before the destructor, the mutex is
  released exactly once and ends free.
\<close>

theorem guard_releases_once:
  "(unlock s = Inr s' \<longrightarrow>
      alreadyUnlocked (fst s') \<and> unlock s' = Inr s' \<and> Guard_dtor s' = Inr (snd s'))
   \<and> (alreadyUnlocked g \<longrightarrow> unlock (g, w') = Inr (g, w') \<and> Guard_dtor (g, w') = Inr w')
   \<and> (case unlock s of Inl e \<Rightarrow> Inl e | Inr s1 \<Rightarrow> unlock s1) = unlock s
   \<and> (\<not> locked (m_mutex w) \<longrightarrow>
        Guard_lifetime n w
          = Inr (w\<lparr>m_mutex := \<lparr>locked = False, released = Suc (released (m_mutex w))\<rparr>\<rparr>))"
proof -
  have a: "unlock s = Inr s' \<longrightarrow>
             alreadyUnlocked (fst s') \<and> unlock s' = Inr s' \<and> Guard_dtor s' = Inr (snd s')"
    using unlock_again [of s s'] dtor_after_unlock [of s s'] unlock_sets_flag [of s s']
    by blast
  have b: "alreadyUnlocked g \<longrightarrow> unlock (g, w') = Inr (g, w') \<and> Guard_dtor (g, w') = Inr w'"
    by (simp add: unlock_def Guard_dtor_def)
  from a b unlock_twice [of s] Guard_lifetime_eq [of w n] show ?thesis
    by blast
qed

theorem guard_releases_once_witness:
  "Guard_lifetime 0 (WrappingMutex_default (0::nat))
     = Inr \<lparr>m_data = 0, m_mutex = \<lparr>locked = False, released = 1\<rparr>\<rparr>
   \<and> Guard_lifetime 2 (WrappingMutex_default (0::nat))
     = Inr \<lparr>m_data = 0, m_mutex = \<lparr>locked = False, released = 1\<rparr>\<rparr>
   \<and> unlock (\<lparr>alreadyUnlocked = True\<rparr>,
              \<lparr>m_data = 0::nat, m_mutex = \<lparr>locked = False, released = 1\<rparr>\<rparr>)
     = Inr (\<lparr>alreadyUnlocked = True\<rparr>,
            \<lparr>m_data = 0, m_mutex = \<lparr>locked = False, released = 1\<rparr>\<rparr>)
   \<and> Guard_dtor (\<lparr>alreadyUnlocked = True\<rparr>,
                  \<lparr>m_data = 0::nat, m_mutex = \<lparr>locked = False, released = 1\<rparr>\<rparr>)
     = Inr \<lparr>m_data = 0, m_mutex = \<lparr>locked = False, released = 1\<rparr>\<rparr>"
proof -
  let ?s0 = "(\<lparr>alreadyUnlocked = False\<rparr>,
              \<lparr>m_data = 0::nat, m_mutex = \<lparr>locked = True, released = 0\<rparr>\<rparr>)"
  let ?s1 = "(\<lparr>alreadyUnlocked = True\<rparr>,
              \<lparr>m_data = 0::nat, m_mutex = \<lparr>locked = False, released = 1\<rparr>\<rparr>)"
  have u: "unlock ?s0 = Inr ?s1"
    by (simp add: unlock_def mutex_unlock_def)
  have free: "\<not> locked (m_mutex (WrappingMutex_default (0::nat)))"
    by (simp add: WrappingMutex_default_def mutex_new_def)
  note t0 = guard_releases_once
              [where s = ?s0 and s' = ?s1 and g = "fst ?s1" and w' = "snd ?s1"
                 and w = "WrappingMutex_default (0::nat)" and n = 0]
  note t2 = guard_releases_once
              [where s = ?s0 and s' = ?s1 and g = "fst ?s1" and w' = "snd ?s1"
                 and w = "WrappingMutex_default (0::nat)" and n = 2]
  from t0 t2 u free show ?thesis
    by (simp add: WrappingMutex_default_def mutex_new_def)
qed

text \<open>
  C5, as stated, asks that \<^verbatim>\<open>pop()\<close> on an empty queue and a second explicit
  \<^verbatim>\<open>unlock()\<close> end in a deliberate failure. They do not: on the guard of a
  default-constructed \<^verbatim>\<open>WrappingMutex<unsigned>\<close>, the first \<^verbatim>\<open>unlock()\<close> releases the mutex,
  the second returns normally with nothing changed; and \<^verbatim>\<open>pop()\<close> on a new queue
  runs into the undefined \<^verbatim>\<open>front()\<close> of an empty \<^verbatim>\<open>std::queue\<close>, which is no abort.
\<close>

theorem fails_loudly_counterexample:
  "lock (WrappingMutex_default (0::nat))
     = Inr (\<lparr>alreadyUnlocked = False\<rparr>,
            \<lparr>m_data = 0, m_mutex = \<lparr>locked = True, released = 0\<rparr>\<rparr>)
   \<and> unlock (\<lparr>alreadyUnlocked = False\<rparr>,
              \<lparr>m_data = 0::nat, m_mutex = \<lparr>locked = True, released = 0\<rparr>\<rparr>)
     = Inr (\<lparr>alreadyUnlocked = True\<rparr>,
            \<lparr>m_data = 0, m_mutex = \<lparr>locked = False, released = 1\<rparr>\<rparr>)
   \<and> unlock (\<lparr>alreadyUnlocked = True\<rparr>,
              \<lparr>m_data = 0::nat, m_mutex = \<lparr>locked = False, released = 1\<rparr>\<rparr>)
     = Inr (\<lparr>alreadyUnlocked = True\<rparr>,
            \<lparr>m_data = 0, m_mutex = \<lparr>locked = False, released = 1\<rparr>\<rparr>)
   \<and> unlock (\<lparr>alreadyUnlocked = True\<rparr>,
              \<lparr>m_data = 0::nat, m_mutex = \<lparr>locked = False, released = 1\<rparr>\<rparr>)
     \<noteq> Inl Abort
   \<and> pop (SmartMessageQueue_new :: nat SmartMessageQueue) = Inl UndefinedBehaviour
   \<and> pop (SmartMessageQueue_new :: nat SmartMessageQueue) \<noteq> Inl Abort"
  by (simp add: lock_def Guard_ctor_def mutex_lock_def WrappingMutex_default_def mutex_new_def
        unlock_def mutex_unlock_def pop_def SmartMessageQueue_new_def)

lemma unlock_no_abort: "unlock s \<noteq> Inl Abort"
  by (cases s) (auto simp: unlock_def mutex_unlock_def split: if_splits)

text \<open>
  C5, amended. Neither contract violation is checked. \<^verbatim>\<open>pop()\<close> on an empty queue
  is the undefined behaviour of \<^verbatim>\<open>front()\<close> on an empty \<^verbatim>\<open>std::queue\<close> and never a
  deliberate abort. \<^verbatim>\<open>unlock()\<close> on a guard whose \<^verbatim>\<open>alreadyUnlocked\<close> is set, which is
  what every \<^verbatim>\<open>unlock()\<close> after the first finds, returns normally and changes
  nothing; \<^verbatim>\<open>unlock()\<close> never aborts either.
\<close>

theorem contract_violations_unchecked:
  "(empty_q q \<longrightarrow> pop q = Inl UndefinedBehaviour)
   \<and> pop q \<noteq> Inl Abort
   \<and> (alreadyUnlocked (fst s) \<longrightarrow> unlock s = Inr s)
   \<and> (unlock s = Inr s' \<longrightarrow> alreadyUnlocked (fst s') \<and> unlock s' = Inr s')
   \<and> unlock s \<noteq> Inl Abort"
proof -
  have 1: "empty_q q \<longrightarrow> pop q = Inl UndefinedBehaviour"
    by (simp add: empty_q_def pop_def)
  have 2: "pop q \<noteq> Inl Abort"
    by (simp add: pop_def split: list.splits)
  have 3: "alreadyUnlocked (fst s) \<longrightarrow> unlock s = Inr s"
    by (cases s) (simp add: unlock_def)
  have 4: "unlock s = Inr s' \<longrightarrow> alreadyUnlocked (fst s') \<and> unlock s' = Inr s'"
    by (cases s) (auto simp: unlock_def split: if_splits sum.splits)
  from 1 2 3 4 unlock_no_abort [of s] show ?thesis by blast
qed

theorem contract_violations_unchecked_witness:
  "empty_q (SmartMessageQueue_new :: nat SmartMessageQueue)
   \<and> pop (SmartMessageQueue_new :: nat SmartMessageQueue) = Inl UndefinedBehaviour
   \<and> unlock (\<lparr>alreadyUnlocked = True\<rparr>,
              \<lparr>m_data = 0::nat, m_mutex = \<lparr>locked = False, released = 1\<rparr>\<rparr>)
     = Inr (\<lparr>alreadyUnlocked = True\<rparr>,
            \<lparr>m_data = 0, m_mutex = \<lparr>locked = False, released = 1\<rparr>\<rparr>)"
proof -
  have e: "empty_q (SmartMessageQueue_new :: nat SmartMessageQueue)"
    by (simp add: empty_q_def SmartMessageQueue_new_def)
  from contract_violations_unchecked
         [where q = "SmartMessageQueue_new :: nat SmartMessageQueue"
            and s = "(\<lparr>alreadyUnlocked = True\<rparr>,
                      \<lparr>m_data = 0::nat, m_mutex = \<lparr>locked = False, released = 1\<rparr>\<rparr>)"] e
  show ?thesis by simp
qed

text \<open>
  The default constructor: the protected value is the default-constructed \<^verbatim>\<open>T()\<close>,
  and the first \<^verbatim>\<open>lock()\<close> returns (the new mutex is free) a guard that holds the
  mutex and whose dereference is that value.
\<close>

lemma WrappingMutex_default_initial_value:
  "m_data (WrappingMutex_default T_default) = T_default
   \<and> lock (WrappingMutex_default T_default)
       = Inr (\<lparr>alreadyUnlocked = False\<rparr>,
              \<lparr>m_data = T_default, m_mutex = \<lparr>locked = True, released = 0\<rparr>\<rparr>)
   \<and> map_sum id Guard_deref (lock (WrappingMutex_default T_default)) = Inr T_default"
  by (simp add: WrappingMutex_default_def lock_def Guard_ctor_def mutex_lock_def mutex_new_def
        Guard_deref_def)

section \<open>Properties of RelaxedAtomic\<close>

text \<open>
  C7. The copy constructor is a relaxed load of the source followed by a relaxed
  store into the new object, so the copy's \<^verbatim>\<open>load()\<close> is the value the source held
  when it was loaded, whatever the new object held before and whatever another
  thread does to the source between the two steps; the two steps are not one atomic
  operation: a concurrent store of a different value into the source in between
  leaves the copy different from the source.
\<close>

theorem RelaxedAtomic_copy_load_then_store:
  "RelaxedAtomic_copy self other = store (load other relaxed) relaxed self
   \<and> load (RelaxedAtomic_copy self other) relaxed = load other relaxed
   \<and> RelaxedAtomic_copy self other = fst (RelaxedAtomic_copy_with (\<lambda>a. a) self other)
   \<and> load (fst (RelaxedAtomic_copy_with writer self other)) relaxed = load other relaxed
   \<and> (val \<noteq> load other relaxed \<longrightarrow>
        load (fst (RelaxedAtomic_copy_with (store val relaxed) self other)) relaxed
          \<noteq> load (snd (RelaxedAtomic_copy_with (store val relaxed) self other)) relaxed)"
  by (simp add: RelaxedAtomic_copy_def RelaxedAtomic_copy_with_def load_def store_def Let_def)

theorem RelaxedAtomic_copy_load_then_store_witness:
  "load (RelaxedAtomic_copy (RelaxedAtomic_initial (0::nat)) (RelaxedAtomic_initial 42)) relaxed = 42
   \<and> RelaxedAtomic_copy_with (store 7 relaxed) (RelaxedAtomic_initial (0::nat)) (RelaxedAtomic_initial 42)
     = (RelaxedAtomic_initial 42, RelaxedAtomic_initial 7)"
  using RelaxedAtomic_copy_load_then_store
          [where self = "RelaxedAtomic_initial (0::nat)" and other = "RelaxedAtomic_initial 42"
             and val = 7 and writer = "store 7 relaxed"]
  by (simp add: RelaxedAtomic_copy_with_def RelaxedAtomic_initial_def load_def store_def)

end
